theory Spec2Isabelle
  imports Main
begin

unbundle bit_operations_syntax

section \<open>Values of the program\<close>

text \<open>
  A cache key is a JavaScript array (\<^verbatim>\<open>Array<any>\<close>). An array is an object: it has an
  identity, which is what \<^verbatim>\<open>===\<close> compares, and contents. The identity is the address
  \<open>addr\<close>; the contents are \<open>elems\<close>. The element type \<open>'v\<close> stands for \<^verbatim>\<open>any\<close>.
\<close>

record 'v jsarray =
  addr :: nat
  elems :: "'v list"

text \<open>\<^verbatim>\<open>a === b\<close> on two arrays: the same object.\<close>

definition strict_eq :: "'v jsarray \<Rightarrow> 'v jsarray \<Rightarrow> bool" where
  "strict_eq a b = (addr a = addr b)"

text \<open>\<^verbatim>\<open>a[i]\<close>: reading past the end of an array gives \<^verbatim>\<open>undefined\<close>, here \<open>None\<close>.\<close>

definition at :: "'v jsarray \<Rightarrow> nat \<Rightarrow> 'v option" where
  "at a i = (if i < length (elems a) then Some (elems a ! i) else None)"

text \<open>
  An expiration record, \<^verbatim>\<open>{expirationMethod, key, timeoutId}\<close>. The callback is opaque
  (type \<open>'f\<close>).
\<close>

record ('v, 'f) Expiration =
  expirationMethod :: 'f
  key :: "'v jsarray"
  timeoutId :: nat

section \<open>utils.js\<close>

subsection \<open>findExpirationIndex\<close>

text \<open>
  \<^verbatim>\<open>for (let index = 0; index < expirations.length; index++)
    if (expirations[index].key === key) return index;
  return -1;\<close>
\<close>

function findExpirationIndex_loop ::
  "('v, 'f) Expiration list \<Rightarrow> 'v jsarray \<Rightarrow> nat \<Rightarrow> int" where
  "findExpirationIndex_loop exps k index =
     (if index < length exps then
        (if strict_eq (key (exps ! index)) k then int index
         else findExpirationIndex_loop exps k (index + 1))
      else - 1)"
  by pat_completeness auto
termination
  by (relation "measure (\<lambda>(exps, k, index). length exps - index)") auto

declare findExpirationIndex_loop.simps [simp del]

definition findExpirationIndex :: "('v, 'f) Expiration list \<Rightarrow> 'v jsarray \<Rightarrow> int" where
  "findExpirationIndex exps k = findExpirationIndex_loop exps k 0"

subsection \<open>createFindKeyIndex\<close>

text \<open>
  The default key comparison, used when \<^verbatim>\<open>isMatchingKey\<close> is not a function:
  \<^verbatim>\<open>for (let index = 0; index < key.length; index++)
    if (!isEqual(cacheKey[index], key[index])) return false;
  return true;\<close>
  \<^verbatim>\<open>isEqual\<close> is supplied by the caller and may be handed \<^verbatim>\<open>undefined\<close>, so it is a
  predicate on \<open>'v option\<close>.
\<close>

function areKeysEqual_loop ::
  "('v option \<Rightarrow> 'v option \<Rightarrow> bool) \<Rightarrow> 'v jsarray \<Rightarrow> 'v jsarray \<Rightarrow> nat \<Rightarrow> bool" where
  "areKeysEqual_loop isEq cacheKey k index =
     (if index < length (elems k) then
        (if \<not> isEq (at cacheKey index) (at k index) then False
         else areKeysEqual_loop isEq cacheKey k (index + 1))
      else True)"
  by pat_completeness auto
termination
  by (relation "measure (\<lambda>(isEq, cacheKey, k, index). length (elems k) - index)") auto

declare areKeysEqual_loop.simps [simp del]

text \<open>
  \<^verbatim>\<open>typeof isMatchingKey === 'function' ? isMatchingKey : (cacheKey, key) => ...\<close>;
  \<open>Some m\<close> is a function, \<open>None\<close> anything else.
\<close>

definition areKeysEqual ::
  "('v option \<Rightarrow> 'v option \<Rightarrow> bool) \<Rightarrow> ('v jsarray \<Rightarrow> 'v jsarray \<Rightarrow> bool) option
     \<Rightarrow> 'v jsarray \<Rightarrow> 'v jsarray \<Rightarrow> bool" where
  "areKeysEqual isEq isMatching =
     (case isMatching of
        Some m \<Rightarrow> m
      | None \<Rightarrow> (\<lambda>cacheKey k. areKeysEqual_loop isEq cacheKey k 0))"

text \<open>
  The returned closure \<^verbatim>\<open>findKeyIndex\<close>:
  \<^verbatim>\<open>for (let keysIndex = 0; keysIndex < keys.length; keysIndex++)
    if (keys[keysIndex].length === key.length)
      if (areKeysEqual(keys[keysIndex], key)) return keysIndex;
  return -1;\<close>
\<close>

function findKeyIndex_loop ::
  "('v jsarray \<Rightarrow> 'v jsarray \<Rightarrow> bool) \<Rightarrow> 'v jsarray list \<Rightarrow> 'v jsarray \<Rightarrow> nat \<Rightarrow> int" where
  "findKeyIndex_loop eq ks k keysIndex =
     (if keysIndex < length ks then
        (if length (elems (ks ! keysIndex)) = length (elems k) then
           (if eq (ks ! keysIndex) k then int keysIndex
            else findKeyIndex_loop eq ks k (keysIndex + 1))
         else findKeyIndex_loop eq ks k (keysIndex + 1))
      else - 1)"
  by pat_completeness auto
termination
  by (relation "measure (\<lambda>(eq, ks, k, keysIndex). length ks - keysIndex)") auto

declare findKeyIndex_loop.simps [simp del]

definition createFindKeyIndex ::
  "('v option \<Rightarrow> 'v option \<Rightarrow> bool) \<Rightarrow> ('v jsarray \<Rightarrow> 'v jsarray \<Rightarrow> bool) option
     \<Rightarrow> 'v jsarray list \<Rightarrow> 'v jsarray \<Rightarrow> int" where
  "createFindKeyIndex isEq isMatching ks k =
     findKeyIndex_loop (areKeysEqual isEq isMatching) ks k 0"

text \<open>
  The test the scan applies to one stored key: equal lengths, then the key comparison.
\<close>

definition key_hit :: "('v jsarray \<Rightarrow> 'v jsarray \<Rightarrow> bool) \<Rightarrow> 'v jsarray \<Rightarrow> 'v jsarray \<Rightarrow> bool" where
  "key_hit eq stored k = (length (elems stored) = length (elems k) \<and> eq stored k)"

section \<open>instance.js\<close>

subsection \<open>The memoized function object\<close>

text \<open>A JavaScript number, as far as \<^verbatim>\<open>maxSize\<close> needs it: an integer or \<^verbatim>\<open>Infinity\<close>.\<close>

datatype jsnumber = Num int | Infinity

text \<open>
  The options the methods read: \<^verbatim>\<open>isEqual\<close>, \<^verbatim>\<open>isMatchingKey\<close>, \<^verbatim>\<open>transformKey\<close> (each
  \<open>None\<close> when it is not set), \<^verbatim>\<open>maxSize\<close> (\<open>None\<close> when it is \<^verbatim>\<open>undefined\<close>), and the
  callbacks \<^verbatim>\<open>onCacheAdd\<close> and \<^verbatim>\<open>onCacheChange\<close>. The callbacks are functions of the caller,
  called unguarded as \<^verbatim>\<open>isEqual\<close> is; the field holds the name \<open>'p\<close> of the function, and
  what the function does when called is given by the parameter \<open>prim\<close> of the methods below.
\<close>

record ('v, 'p) MicroMemoizeOptions =
  isEqual :: "'v option \<Rightarrow> 'v option \<Rightarrow> bool"
  isMatchingKey :: "('v jsarray \<Rightarrow> 'v jsarray \<Rightarrow> bool) option"
  maxSize :: "jsnumber option"
  onCacheAdd :: 'p
  onCacheChange :: 'p
  transformKey :: "('v jsarray \<Rightarrow> 'v jsarray) option"

text \<open>\<^verbatim>\<open>moized.cache\<close>: the key sequence and the value sequence.\<close>

record ('v, 'r) Cache =
  keys :: "'v jsarray list"
  vals :: "'r list"

text \<open>
  Modelled from the spec: the cache object is made by the memoization engine, which is not
  among the sources, and \<^verbatim>\<open>moized.cache.size\<close> is read from it. The spec (section 3) gives
  the size count as the length of the key sequence, \<open>size == len(keys) == len(values)\<close>.
\<close>

definition cache_size :: "('v, 'r) Cache \<Rightarrow> nat" where
  "cache_size c = length (keys c)"

text \<open>
  The function object \<^verbatim>\<open>moized\<close> with the properties the methods use, and
  \<^verbatim>\<open>moized.expirations\<close>, the list of the expiration records of the instance.
\<close>

record ('v, 'r, 'f, 'p) Moized =
  cache :: "('v, 'r) Cache"
  options :: "('v, 'p) MicroMemoizeOptions"
  expirations :: "('v, 'f) Expiration list"

text \<open>
  A call of a callback that was made, \<^verbatim>\<open>onCacheAdd(moized.cache, moized.options, moized)\<close>
  or \<^verbatim>\<open>onCacheChange(moized.cache, moized.options, moized)\<close>, with its three arguments.
\<close>

datatype ('v, 'r, 'f, 'p) call =
  OnCacheAdd "('v, 'r) Cache" "('v, 'p) MicroMemoizeOptions" "('v, 'r, 'f, 'p) Moized"
| OnCacheChange "('v, 'r) Cache" "('v, 'p) MicroMemoizeOptions" "('v, 'r, 'f, 'p) Moized"

text \<open>
  The state a method runs in: the object, the callback calls made so far (a call that
  throws is a call that was made), and the world \<open>'w\<close> that the callbacks act on.
\<close>

record ('v, 'r, 'f, 'p, 'w) state =
  moized :: "('v, 'r, 'f, 'p) Moized"
  calls :: "('v, 'r, 'f, 'p) call list"
  world :: 'w

text \<open>
  What a method returns to its caller. A method that does not return leaves with the
  exception \<open>'e\<close> that a callback threw: its outcome is \<open>Inl e\<close>, and \<open>Inr r\<close> when it returns
  \<open>r\<close>.
\<close>

datatype jsret = Undefined | Boolean bool

subsection \<open>Operators\<close>

text \<open>
  \<^verbatim>\<open>size >= maxSize\<close>: with \<^verbatim>\<open>maxSize\<close> undefined the comparison is against \<^verbatim>\<open>NaN\<close> and is
  false; no size reaches \<^verbatim>\<open>Infinity\<close>.
\<close>

definition size_ge :: "nat \<Rightarrow> jsnumber option \<Rightarrow> bool" where
  "size_ge n m =
     (case m of None \<Rightarrow> False | Some (Num b) \<Rightarrow> b \<le> int n | Some Infinity \<Rightarrow> False)"

text \<open>A number in a condition: zero is false. \<^verbatim>\<open>~x\<close> is \<open>NOT x\<close>.\<close>

definition truthy :: "int \<Rightarrow> bool" where
  "truthy n = (n \<noteq> 0)"

text \<open>\<^verbatim>\<open>xs.splice(i, 1)\<close>: drop the element at index \<open>i\<close>.\<close>

definition splice1 :: "nat \<Rightarrow> 'a list \<Rightarrow> 'a list" where
  "splice1 i xs = take i xs @ drop (Suc i) xs"

subsection \<open>addInstanceMethods\<close>

text \<open>\<^verbatim>\<open>transformKey ? transformKey(key) : key\<close>\<close>

definition savedKey :: "('v, 'p) MicroMemoizeOptions \<Rightarrow> 'v jsarray \<Rightarrow> 'v jsarray" where
  "savedKey opts k = (case transformKey opts of Some t \<Rightarrow> t k | None \<Rightarrow> k)"

text \<open>\<^verbatim>\<open>const findKeyIndex = createFindKeyIndex(isEqual, isMatchingKey)\<close>\<close>

definition findKeyIndex :: "('v, 'p) MicroMemoizeOptions \<Rightarrow> 'v jsarray list \<Rightarrow> 'v jsarray \<Rightarrow> int" where
  "findKeyIndex opts = createFindKeyIndex (isEqual opts) (isMatchingKey opts)"

text \<open>
  Calling the caller's function \<open>p\<close> as a callback. \<open>prim p args w\<close> is what the function does
  when called with the three arguments in the world \<open>w\<close>: it throws (\<open>Inl e\<close>) or returns
  (\<open>Inr ()\<close>, its result is not used), and leaves a new world. The arguments
  \<^verbatim>\<open>(moized.cache, moized.options, moized)\<close> are read when the call is made. The callbacks
  are taken not to change the object they are handed.
\<close>

definition call_callback ::
  "('p \<Rightarrow> ('v, 'r) Cache \<times> ('v, 'p) MicroMemoizeOptions \<times> ('v, 'r, 'f, 'p) Moized
       \<Rightarrow> 'w \<Rightarrow> ('e + unit) \<times> 'w)
     \<Rightarrow> 'p
     \<Rightarrow> (('v, 'r) Cache \<Rightarrow> ('v, 'p) MicroMemoizeOptions \<Rightarrow> ('v, 'r, 'f, 'p) Moized
           \<Rightarrow> ('v, 'r, 'f, 'p) call)
     \<Rightarrow> ('v, 'r, 'f, 'p, 'w) state \<Rightarrow> ('e + unit) \<times> ('v, 'r, 'f, 'p, 'w) state" where
  "call_callback prim p tag s =
     (let m = moized s;
          outcome = prim p (cache m, options m, m) (world s)
      in (fst outcome,
          s\<lparr>calls := calls s @ [tag (cache m) (options m) m], world := snd outcome\<rparr>))"

text \<open>
  The names of the methods that \<^verbatim>\<open>Object.assign(moized, {...})\<close> puts on the object, in
  the order of the object literal.
\<close>

definition instanceMethods :: "string list" where
  "instanceMethods =
     [''add'', ''clear'', ''get'', ''getStats'', ''has'', ''keys'', ''remove'', ''values'']"

text \<open>
  \<^verbatim>\<open>moized\<close> is a function object. Besides the methods above, the functions it has under a
  string name are the ones every function inherits from \<^verbatim>\<open>Function.prototype\<close> and
  \<^verbatim>\<open>Object.prototype\<close> (\<^verbatim>\<open>get\<close> calls \<^verbatim>\<open>moized.apply\<close>). The properties that the memoization
  engine and \<^verbatim>\<open>addInstanceProperties\<close> put on it (\<^verbatim>\<open>cache\<close>, \<^verbatim>\<open>cacheSnapshot\<close>, \<^verbatim>\<open>options\<close>,
  \<^verbatim>\<open>expirations\<close> and the like) are not functions.
\<close>

definition inheritedMethods :: "string list" where
  "inheritedMethods =
     [''apply'', ''bind'', ''call'', ''toString'', ''constructor'',
      ''hasOwnProperty'', ''isPrototypeOf'', ''propertyIsEnumerable'', ''toLocaleString'',
      ''valueOf'', ''__defineGetter__'', ''__defineSetter__'', ''__lookupGetter__'',
      ''__lookupSetter__'']"

text \<open>
  Calling \<^verbatim>\<open>moized.name(...)\<close>: the method of that name is looked up on the object, then on
  its prototypes; a name under which there is no function cannot be called, and the call
  raises a \<^verbatim>\<open>TypeError\<close>.
\<close>

datatype jserror = TypeError string

definition lookupMethod :: "string \<Rightarrow> jserror + string" where
  "lookupMethod name =
     (if name \<in> set instanceMethods then Inr name
      else if name \<in> set inheritedMethods then Inr name
      else Inl (TypeError (''moized.'' @ name @ '' is not a function'')))"

text \<open>
  \<^verbatim>\<open>add(key, value)\<close>:
  \<^verbatim>\<open>if (!~findKeyIndex(moized.cache.keys, savedKey)) {
    if (moized.cache.size >= moized.options.maxSize) { keys.pop(); values.pop(); }
    keys.unshift(savedKey); values.unshift(value);
    onCacheAdd(moized.cache, moized.options, moized);
    onCacheChange(moized.cache, moized.options, moized);
  }\<close>
\<close>

definition add ::
  "('p \<Rightarrow> ('v, 'r) Cache \<times> ('v, 'p) MicroMemoizeOptions \<times> ('v, 'r, 'f, 'p) Moized
       \<Rightarrow> 'w \<Rightarrow> ('e + unit) \<times> 'w)
     \<Rightarrow> 'v jsarray \<Rightarrow> 'r \<Rightarrow> ('v, 'r, 'f, 'p, 'w) state
     \<Rightarrow> ('e + jsret) \<times> ('v, 'r, 'f, 'p, 'w) state" where
  "add prim k v s =
     (let m = moized s; opts = options m; c = cache m; sk = savedKey opts k in
      if \<not> truthy (NOT (findKeyIndex opts (keys c) sk)) then
        (let c1 = (if size_ge (cache_size c) (maxSize opts)
                   then c\<lparr>keys := butlast (keys c), vals := butlast (vals c)\<rparr>
                   else c);
             c2 = c1\<lparr>keys := sk # keys c1, vals := v # vals c1\<rparr>;
             s1 = s\<lparr>moized := m\<lparr>cache := c2\<rparr>\<rparr>
         in case call_callback prim (onCacheAdd opts) OnCacheAdd s1 of
              (Inl e, s2) \<Rightarrow> (Inl e, s2)
            | (Inr u, s2) \<Rightarrow>
                (case call_callback prim (onCacheChange opts) OnCacheChange s2 of
                   (Inl e, s3) \<Rightarrow> (Inl e, s3)
                 | (Inr u', s3) \<Rightarrow> (Inr Undefined, s3)))
      else (Inr Undefined, s))"

text \<open>
  \<^verbatim>\<open>clear()\<close>: \<^verbatim>\<open>keys.length = 0; values.length = 0; onCacheChange(...)\<close>
\<close>

definition clear ::
  "('p \<Rightarrow> ('v, 'r) Cache \<times> ('v, 'p) MicroMemoizeOptions \<times> ('v, 'r, 'f, 'p) Moized
       \<Rightarrow> 'w \<Rightarrow> ('e + unit) \<times> 'w)
     \<Rightarrow> ('v, 'r, 'f, 'p, 'w) state \<Rightarrow> ('e + jsret) \<times> ('v, 'r, 'f, 'p, 'w) state" where
  "clear prim s =
     (let m = moized s;
          s1 = s\<lparr>moized := m\<lparr>cache := (cache m)\<lparr>keys := [], vals := []\<rparr>\<rparr>\<rparr>
      in case call_callback prim (onCacheChange (options m)) OnCacheChange s1 of
           (Inl e, s2) \<Rightarrow> (Inl e, s2)
         | (Inr u, s2) \<Rightarrow> (Inr Undefined, s2))"

text \<open>\<^verbatim>\<open>has(key)\<close>: \<^verbatim>\<open>return !!~findKeyIndex(moized.cache.keys, savedKey)\<close>\<close>

definition has ::
  "'v jsarray \<Rightarrow> ('v, 'r, 'f, 'p, 'w) state \<Rightarrow> ('e + jsret) \<times> ('v, 'r, 'f, 'p, 'w) state" where
  "has k s =
     (let m = moized s; opts = options m in
      (Inr (Boolean (truthy (NOT (findKeyIndex opts (keys (cache m)) (savedKey opts k))))), s))"

text \<open>
  \<^verbatim>\<open>remove(key)\<close>:
  \<^verbatim>\<open>const keyIndex = findKeyIndex(moized.cache.keys, savedKey);
  if (~keyIndex) {
    keys.splice(keyIndex, 1); values.splice(keyIndex, 1);
    onCacheChange(moized.cache, moized.options, moized);
  }\<close>
\<close>

definition remove ::
  "('p \<Rightarrow> ('v, 'r) Cache \<times> ('v, 'p) MicroMemoizeOptions \<times> ('v, 'r, 'f, 'p) Moized
       \<Rightarrow> 'w \<Rightarrow> ('e + unit) \<times> 'w)
     \<Rightarrow> 'v jsarray \<Rightarrow> ('v, 'r, 'f, 'p, 'w) state
     \<Rightarrow> ('e + jsret) \<times> ('v, 'r, 'f, 'p, 'w) state" where
  "remove prim k s =
     (let m = moized s; opts = options m; c = cache m;
          keyIndex = findKeyIndex opts (keys c) (savedKey opts k) in
      if truthy (NOT keyIndex) then
        (let c2 = c\<lparr>keys := splice1 (nat keyIndex) (keys c),
                     vals := splice1 (nat keyIndex) (vals c)\<rparr>;
             s1 = s\<lparr>moized := m\<lparr>cache := c2\<rparr>\<rparr>
         in case call_callback prim (onCacheChange opts) OnCacheChange s1 of
              (Inl e, s2) \<Rightarrow> (Inl e, s2)
            | (Inr u, s2) \<Rightarrow> (Inr Undefined, s2))
      else (Inr Undefined, s))"

text \<open>
  A sequence of \<^verbatim>\<open>add\<close> calls, each made in the state that the call before it left,
  whether that call returned or a callback threw.
\<close>

fun adds ::
  "('p \<Rightarrow> ('v, 'r) Cache \<times> ('v, 'p) MicroMemoizeOptions \<times> ('v, 'r, 'f, 'p) Moized
       \<Rightarrow> 'w \<Rightarrow> ('e + unit) \<times> 'w)
     \<Rightarrow> ('v jsarray \<times> 'r) list \<Rightarrow> ('v, 'r, 'f, 'p, 'w) state
     \<Rightarrow> ('v, 'r, 'f, 'p, 'w) state" where
  "adds prim [] s = s"
| "adds prim (kv # kvs) s = adds prim kvs (snd (add prim (fst kv) (snd kv) s))"

subsection \<open>Vocabulary of the claims\<close>

text \<open>Some stored key matches the candidate under the key matcher of the options.\<close>

definition stored_match :: "('v, 'p) MicroMemoizeOptions \<Rightarrow> 'v jsarray list \<Rightarrow> 'v jsarray \<Rightarrow> bool" where
  "stored_match opts ks k =
     (\<exists>stored \<in> set ks. key_hit (areKeysEqual (isEqual opts) (isMatchingKey opts)) stored k)"

text \<open>No key of the list matches another key of the list, in either direction.\<close>

fun pairwise_unmatched :: "('v, 'p) MicroMemoizeOptions \<Rightarrow> 'v jsarray list \<Rightarrow> bool" where
  "pairwise_unmatched opts [] = True"
| "pairwise_unmatched opts (k # ks) =
     ((\<forall>k' \<in> set ks.
         \<not> key_hit (areKeysEqual (isEqual opts) (isMatchingKey opts)) k k'
         \<and> \<not> key_hit (areKeysEqual (isEqual opts) (isMatchingKey opts)) k' k)
      \<and> pairwise_unmatched opts ks)"

text \<open>The cache after the eviction step of \<^verbatim>\<open>add\<close>, and after its insertion step.\<close>

definition evicted :: "('v, 'p) MicroMemoizeOptions \<Rightarrow> ('v, 'r) Cache \<Rightarrow> ('v, 'r) Cache" where
  "evicted opts c =
     (if size_ge (cache_size c) (maxSize opts)
      then c\<lparr>keys := butlast (keys c), vals := butlast (vals c)\<rparr> else c)"

definition inserted ::
  "('v, 'p) MicroMemoizeOptions \<Rightarrow> 'v jsarray \<Rightarrow> 'r \<Rightarrow> ('v, 'r) Cache \<Rightarrow> ('v, 'r) Cache" where
  "inserted opts sk v c =
     (evicted opts c)\<lparr>keys := sk # keys (evicted opts c), vals := v # vals (evicted opts c)\<rparr>"

subsection \<open>Concrete inputs\<close>

text \<open>
  The inputs of the instance tests: keys are one-element arrays of strings, values are
  strings, \<^verbatim>\<open>isEqual\<close> is \<^verbatim>\<open>(a, b) => a === b\<close>, no custom matcher, no key transform.
\<close>

definition strict_equal :: "string option \<Rightarrow> string option \<Rightarrow> bool" where
  "strict_equal a b = (a = b)"

definition test_options :: "jsnumber option \<Rightarrow> (string, string) MicroMemoizeOptions" where
  "test_options m =
     \<lparr>isEqual = strict_equal, isMatchingKey = None, maxSize = m,
      onCacheAdd = ''onCacheAdd'', onCacheChange = ''onCacheChange'', transformKey = None\<rparr>"

text \<open>
  The callbacks of the tests return (\<^verbatim>\<open>onCacheAdd() {}\<close>, or a spy): \<open>returning\<close>. With
  \<open>throwing_onCacheAdd\<close> the function \<^verbatim>\<open>onCacheAdd\<close> throws and \<^verbatim>\<open>onCacheChange\<close> returns.
\<close>

definition returning ::
  "string \<Rightarrow> (string, string) Cache \<times> (string, string) MicroMemoizeOptions
       \<times> (string, string, unit, string) Moized
     \<Rightarrow> unit \<Rightarrow> (string + unit) \<times> unit" where
  "returning p args w = (Inr (), w)"

definition throwing_onCacheAdd ::
  "string \<Rightarrow> (string, string) Cache \<times> (string, string) MicroMemoizeOptions
       \<times> (string, string, unit, string) Moized
     \<Rightarrow> unit \<Rightarrow> (string + unit) \<times> unit" where
  "throwing_onCacheAdd p args w =
     (if p = ''onCacheAdd'' then (Inl ''thrown by onCacheAdd'', w) else (Inr (), w))"

definition key_a :: "string jsarray" where "key_a = \<lparr>addr = 1, elems = [''a'']\<rparr>"
definition key_b :: "string jsarray" where "key_b = \<lparr>addr = 2, elems = [''b'']\<rparr>"
definition key_c :: "string jsarray" where "key_c = \<lparr>addr = 3, elems = [''c'']\<rparr>"

text \<open>An instance with an empty cache and no expirations.\<close>

definition empty_state :: "jsnumber option \<Rightarrow> (string, string, unit, string, unit) state" where
  "empty_state m =
     \<lparr>moized = \<lparr>cache = \<lparr>keys = [], vals = []\<rparr>, options = test_options m, expirations = []\<rparr>,
      calls = [], world = ()\<rparr>"

text \<open>
  An instance whose cache holds two entries, \<^verbatim>\<open>['b'] -> '2'\<close> in front of \<^verbatim>\<open>['a'] -> '1'\<close>,
  with an expiration record for the key at the back in \<^verbatim>\<open>moized.expirations\<close>.
\<close>

definition armed_state :: "jsnumber option \<Rightarrow> (string, string, unit, string, unit) state" where
  "armed_state m =
     \<lparr>moized = \<lparr>cache = \<lparr>keys = [key_b, key_a], vals = [''2'', ''1'']\<rparr>,
                 options = test_options m,
                 expirations = [\<lparr>expirationMethod = (), key = key_a, timeoutId = 7\<rparr>]\<rparr>,
      calls = [], world = ()\<rparr>"

text \<open>
  The instance of the test of \<^verbatim>\<open>remove\<close> with an armed expiration: the cache holds
  \<^verbatim>\<open>['key'] -> 'value'\<close>, \<^verbatim>\<open>transformKey\<close> returns its argument, and the expirations hold the
  record of that key.
\<close>

definition key_k :: "string jsarray" where "key_k = \<lparr>addr = 4, elems = [''key'']\<rparr>"

definition expiring_state :: "(string, string, unit, string, unit) state" where
  "expiring_state =
     \<lparr>moized =
        \<lparr>cache = \<lparr>keys = [key_k], vals = [''value'']\<rparr>,
         options = \<lparr>isEqual = strict_equal, isMatchingKey = None, maxSize = None,
                     onCacheAdd = ''onCacheAdd'', onCacheChange = ''onCacheChange'',
                     transformKey = Some (\<lambda>k. k)\<rparr>,
         expirations = [\<lparr>expirationMethod = (), key = key_k, timeoutId = 7\<rparr>]\<rparr>,
      calls = [], world = ()\<rparr>"

section \<open>utils.js: combining functions and merging options\<close>

subsection \<open>Functions as values\<close>

text \<open>
  A function value is a function of the caller (\<open>Prim p\<close>, with \<open>p\<close> naming it) or one of
  the two closures that \<^verbatim>\<open>combine\<close> and \<^verbatim>\<open>compose\<close> build over captured functions
  \<open>f\<close> and \<open>g\<close>:
  \<^verbatim>\<open>function() { g.apply(this, arguments); f.apply(this, arguments); }\<close> is \<open>Combined f g\<close>,
  \<^verbatim>\<open>function() { return f(g.apply(this, arguments)); }\<close> is \<open>Composed f g\<close>.
  Two function values are the same function exactly when they are equal.
\<close>

datatype 'p fn = Prim 'p | Combined "'p fn" "'p fn" | Composed "'p fn" "'p fn"

text \<open>A value of type \<^verbatim>\<open>any\<close>: \<^verbatim>\<open>undefined\<close>, a function, or something else.\<close>

datatype ('v, 'p) any = Undef | Other 'v | Function "'p fn"



subsection \<open>combine and compose\<close>





subsection \<open>mergeOptions\<close>




subsection \<open>Concrete inputs\<close>


text \<open>
  Transforms on a single number: \<^verbatim>\<open>double\<close> doubles its first argument, anything else adds
  one to it.
\<close>

definition arith ::
  "string \<Rightarrow> (int, string) any list \<Rightarrow> unit \<Rightarrow> (unit + (int, string) any) \<times> unit" where
  "arith p args w =
     (case args of
        Other n # rest \<Rightarrow> (Inr (Other (if p = ''double'' then 2 * n else n + 1)), w)
      | _ \<Rightarrow> (Inr Undef, w))"



section \<open>Properties of the scans\<close>

lemma findExpirationIndex_loop_miss:
  "(findExpirationIndex_loop exps k i = - 1) =
     (\<forall>j. i \<le> j \<and> j < length exps \<longrightarrow> \<not> strict_eq (key (exps ! j)) k)"
proof (induction exps k i rule: findExpirationIndex_loop.induct)
  case (1 exps k index)
  show ?case
  proof (cases "index < length exps")
    case False
    with findExpirationIndex_loop.simps [of exps k index] show ?thesis by auto
  next
    case True
    show ?thesis
    proof (cases "strict_eq (key (exps ! index)) k")
      case hit: True
      with True findExpirationIndex_loop.simps [of exps k index] show ?thesis by auto
    next
      case miss: False
      have "(\<forall>j. index \<le> j \<and> j < length exps \<longrightarrow> \<not> strict_eq (key (exps ! j)) k) =
            (\<forall>j. index + 1 \<le> j \<and> j < length exps \<longrightarrow> \<not> strict_eq (key (exps ! j)) k)"
        using miss by (metis Suc_eq_plus1 Suc_leI le_neq_implies_less Suc_leD)
      with True miss 1 findExpirationIndex_loop.simps [of exps k index] show ?thesis by simp
    qed
  qed
qed

lemma findExpirationIndex_loop_hit:
  "findExpirationIndex_loop exps k i \<noteq> - 1 \<Longrightarrow>
     (\<exists>n. findExpirationIndex_loop exps k i = int n \<and> i \<le> n \<and> n < length exps
        \<and> strict_eq (key (exps ! n)) k
        \<and> (\<forall>j. i \<le> j \<and> j < n \<longrightarrow> \<not> strict_eq (key (exps ! j)) k))"
proof (induction exps k i rule: findExpirationIndex_loop.induct)
  case (1 exps k index)
  show ?case
  proof (cases "index < length exps")
    case False
    with "1.prems" findExpirationIndex_loop.simps [of exps k index] show ?thesis by simp
  next
    case True
    show ?thesis
    proof (cases "strict_eq (key (exps ! index)) k")
      case hit: True
      with True findExpirationIndex_loop.simps [of exps k index] show ?thesis by auto
    next
      case miss: False
      from True miss have eq:
        "findExpirationIndex_loop exps k index = findExpirationIndex_loop exps k (index + 1)"
        using findExpirationIndex_loop.simps [of exps k index] by simp
      with "1.prems" have "findExpirationIndex_loop exps k (index + 1) \<noteq> - 1" by simp
      from "1.IH" [OF True miss this] obtain n where
        n: "findExpirationIndex_loop exps k (index + 1) = int n" "index + 1 \<le> n"
           "n < length exps" "strict_eq (key (exps ! n)) k"
           "\<forall>j. index + 1 \<le> j \<and> j < n \<longrightarrow> \<not> strict_eq (key (exps ! j)) k"
        by blast
      have "\<forall>j. index \<le> j \<and> j < n \<longrightarrow> \<not> strict_eq (key (exps ! j)) k"
        using n(5) miss by (metis Suc_eq_plus1 Suc_leI le_neq_implies_less)
      with n eq show ?thesis by auto
    qed
  qed
qed

lemma findKeyIndex_loop_miss:
  "(findKeyIndex_loop eq ks k i = - 1) =
     (\<forall>j. i \<le> j \<and> j < length ks \<longrightarrow> \<not> key_hit eq (ks ! j) k)"
proof (induction eq ks k i rule: findKeyIndex_loop.induct)
  case (1 eq ks k keysIndex)
  show ?case
  proof (cases "keysIndex < length ks")
    case False
    with findKeyIndex_loop.simps [of eq ks k keysIndex] show ?thesis by auto
  next
    case True
    show ?thesis
    proof (cases "key_hit eq (ks ! keysIndex) k")
      case hit: True
      with True findKeyIndex_loop.simps [of eq ks k keysIndex]
      show ?thesis by (auto simp: key_hit_def)
    next
      case miss: False
      have step: "findKeyIndex_loop eq ks k keysIndex = findKeyIndex_loop eq ks k (keysIndex + 1)"
        using True miss findKeyIndex_loop.simps [of eq ks k keysIndex] by (simp add: key_hit_def)
      have ih: "(findKeyIndex_loop eq ks k (keysIndex + 1) = - 1) =
            (\<forall>j. keysIndex + 1 \<le> j \<and> j < length ks \<longrightarrow> \<not> key_hit eq (ks ! j) k)"
        using True miss "1.IH" unfolding key_hit_def by blast
      have "(\<forall>j. keysIndex \<le> j \<and> j < length ks \<longrightarrow> \<not> key_hit eq (ks ! j) k) =
            (\<forall>j. keysIndex + 1 \<le> j \<and> j < length ks \<longrightarrow> \<not> key_hit eq (ks ! j) k)"
        using miss by (metis Suc_eq_plus1 Suc_leI le_neq_implies_less Suc_leD)
      with step ih show ?thesis by simp
    qed
  qed
qed

lemma findKeyIndex_loop_hit:
  "findKeyIndex_loop eq ks k i \<noteq> - 1 \<Longrightarrow>
     (\<exists>n. findKeyIndex_loop eq ks k i = int n \<and> i \<le> n \<and> n < length ks
        \<and> key_hit eq (ks ! n) k
        \<and> (\<forall>j. i \<le> j \<and> j < n \<longrightarrow> \<not> key_hit eq (ks ! j) k))"
proof (induction eq ks k i rule: findKeyIndex_loop.induct)
  case (1 eq ks k keysIndex)
  show ?case
  proof (cases "keysIndex < length ks")
    case False
    with "1.prems" findKeyIndex_loop.simps [of eq ks k keysIndex] show ?thesis by simp
  next
    case True
    show ?thesis
    proof (cases "key_hit eq (ks ! keysIndex) k")
      case hit: True
      with True findKeyIndex_loop.simps [of eq ks k keysIndex]
      show ?thesis by (auto simp: key_hit_def)
    next
      case miss: False
      have step: "findKeyIndex_loop eq ks k keysIndex = findKeyIndex_loop eq ks k (keysIndex + 1)"
        using True miss findKeyIndex_loop.simps [of eq ks k keysIndex] by (simp add: key_hit_def)
      with "1.prems" have ne: "findKeyIndex_loop eq ks k (keysIndex + 1) \<noteq> - 1" by simp
      have "\<exists>n. findKeyIndex_loop eq ks k (keysIndex + 1) = int n \<and> keysIndex + 1 \<le> n
               \<and> n < length ks \<and> key_hit eq (ks ! n) k
               \<and> (\<forall>j. keysIndex + 1 \<le> j \<and> j < n \<longrightarrow> \<not> key_hit eq (ks ! j) k)"
        using True miss ne "1.IH" unfolding key_hit_def by blast
      then obtain n where
        n: "findKeyIndex_loop eq ks k (keysIndex + 1) = int n" "keysIndex + 1 \<le> n"
           "n < length ks" "key_hit eq (ks ! n) k"
           "\<forall>j. keysIndex + 1 \<le> j \<and> j < n \<longrightarrow> \<not> key_hit eq (ks ! j) k"
        by blast
      have "\<forall>j. keysIndex \<le> j \<and> j < n \<longrightarrow> \<not> key_hit eq (ks ! j) k"
        using n(5) miss by (metis Suc_eq_plus1 Suc_leI le_neq_implies_less)
      with n step show ?thesis by auto
    qed
  qed
qed


section \<open>Claims about utils.js\<close>

text \<open>
  Claim C10. \<^verbatim>\<open>findExpirationIndex\<close> locates an expiration record by the identity of its
  key alone: it returns the index of the first record whose key is the same object as the
  query key, and \<open>-1\<close> when there is none. It takes neither the equality function nor the
  custom matcher, and a query key with the same contents as a stored key but another
  identity finds nothing.
\<close>

theorem findExpirationIndex_by_identity:
  "((findExpirationIndex exps k = - 1) = (\<forall>j < length exps. addr (key (exps ! j)) \<noteq> addr k))
   \<and> (findExpirationIndex exps k \<noteq> - 1 \<longrightarrow>
        (\<exists>n < length exps. findExpirationIndex exps k = int n
           \<and> addr (key (exps ! n)) = addr k
           \<and> (\<forall>j < n. addr (key (exps ! j)) \<noteq> addr k)))
   \<and> ((\<forall>e \<in> set exps. elems (key e) = elems k \<and> addr (key e) \<noteq> addr k) \<longrightarrow>
        findExpirationIndex exps k = - 1)"
proof (intro conjI impI)
  show miss: "(findExpirationIndex exps k = - 1) = (\<forall>j < length exps. addr (key (exps ! j)) \<noteq> addr k)"
    by (simp add: findExpirationIndex_def findExpirationIndex_loop_miss strict_eq_def)
  show "findExpirationIndex exps k = - 1"
    if "\<forall>e \<in> set exps. elems (key e) = elems k \<and> addr (key e) \<noteq> addr k"
    using that miss by simp
  show "\<exists>n < length exps. findExpirationIndex exps k = int n
           \<and> addr (key (exps ! n)) = addr k
           \<and> (\<forall>j < n. addr (key (exps ! j)) \<noteq> addr k)"
    if "findExpirationIndex exps k \<noteq> - 1"
    using findExpirationIndex_loop_hit [of exps k 0] that
    by (auto simp: findExpirationIndex_def strict_eq_def)
qed

theorem findExpirationIndex_by_identity_witness:
  "findExpirationIndex
     [\<lparr>expirationMethod = (), key = \<lparr>addr = 1, elems = [''a'']\<rparr>, timeoutId = 10\<rparr>,
      \<lparr>expirationMethod = (), key = \<lparr>addr = 2, elems = [''b'']\<rparr>, timeoutId = 11\<rparr>]
     \<lparr>addr = 2, elems = [''b'']\<rparr> = 1
   \<and> findExpirationIndex
     [\<lparr>expirationMethod = (), key = \<lparr>addr = 1, elems = [''a'']\<rparr>, timeoutId = 10\<rparr>]
     \<lparr>addr = 3, elems = [''a'']\<rparr> = - 1"
  using findExpirationIndex_by_identity
    [of "[\<lparr>expirationMethod = (), key = \<lparr>addr = 1, elems = [''a'']\<rparr>, timeoutId = 10\<rparr>,
          \<lparr>expirationMethod = (), key = \<lparr>addr = 2, elems = [''b'']\<rparr>, timeoutId = 11\<rparr>]"
        "\<lparr>addr = 2, elems = [''b'']\<rparr>"]
    findExpirationIndex_by_identity
    [of "[\<lparr>expirationMethod = (), key = \<lparr>addr = 1, elems = [''a'']\<rparr>, timeoutId = 10\<rparr>]"
        "\<lparr>addr = 3, elems = [''a'']\<rparr>"]
  by (simp add: findExpirationIndex_def strict_eq_def findExpirationIndex_loop.simps)

text \<open>
  Claim C5. With a custom matcher configured, \<^verbatim>\<open>findKeyIndex\<close> still compares lengths
  first: it returns the index of the first stored key that has the candidate's length and
  that the matcher accepts, and \<open>-1\<close> when no stored key is both. The matcher is never asked
  about a stored key of another length.
\<close>

theorem findKeyIndex_custom_matcher:
  "((createFindKeyIndex isEq (Some m) ks k = - 1) =
      (\<forall>j < length ks. \<not> (length (elems (ks ! j)) = length (elems k) \<and> m (ks ! j) k)))
   \<and> (createFindKeyIndex isEq (Some m) ks k \<noteq> - 1 \<longrightarrow>
        (\<exists>n < length ks. createFindKeyIndex isEq (Some m) ks k = int n
           \<and> length (elems (ks ! n)) = length (elems k) \<and> m (ks ! n) k
           \<and> (\<forall>j < n. \<not> (length (elems (ks ! j)) = length (elems k) \<and> m (ks ! j) k))))"
proof (intro conjI impI)
  show "(createFindKeyIndex isEq (Some m) ks k = - 1) =
      (\<forall>j < length ks. \<not> (length (elems (ks ! j)) = length (elems k) \<and> m (ks ! j) k))"
    by (simp add: createFindKeyIndex_def areKeysEqual_def findKeyIndex_loop_miss key_hit_def)
  show "\<exists>n < length ks. createFindKeyIndex isEq (Some m) ks k = int n
           \<and> length (elems (ks ! n)) = length (elems k) \<and> m (ks ! n) k
           \<and> (\<forall>j < n. \<not> (length (elems (ks ! j)) = length (elems k) \<and> m (ks ! j) k))"
    if "createFindKeyIndex isEq (Some m) ks k \<noteq> - 1"
    using findKeyIndex_loop_hit [of m ks k 0] that
    by (auto simp: createFindKeyIndex_def areKeysEqual_def key_hit_def)
qed

theorem findKeyIndex_custom_matcher_witness:
  "createFindKeyIndex (=) (Some (\<lambda>stored cand. hd (elems stored) = hd (elems cand)))
     [\<lparr>addr = 1, elems = [''a'', ''x'']\<rparr>, \<lparr>addr = 2, elems = [''b'']\<rparr>, \<lparr>addr = 3, elems = [''a'']\<rparr>]
     \<lparr>addr = 4, elems = [''a'']\<rparr> = 2
   \<and> createFindKeyIndex (=) (Some (\<lambda>stored cand. hd (elems stored) = hd (elems cand)))
     [\<lparr>addr = 1, elems = [''a'', ''x'']\<rparr>, \<lparr>addr = 2, elems = [''b'']\<rparr>]
     \<lparr>addr = 4, elems = [''a'']\<rparr> = - 1"
  using findKeyIndex_custom_matcher
    [of "(=)" "\<lambda>stored cand. hd (elems stored) = hd (elems cand)"
        "[\<lparr>addr = 1, elems = [''a'', ''x'']\<rparr>, \<lparr>addr = 2, elems = [''b'']\<rparr>, \<lparr>addr = 3, elems = [''a'']\<rparr>]"
        "\<lparr>addr = 4, elems = [''a'']\<rparr>"]
    findKeyIndex_custom_matcher
    [of "(=)" "\<lambda>stored cand. hd (elems stored) = hd (elems cand)"
        "[\<lparr>addr = 1, elems = [''a'', ''x'']\<rparr>, \<lparr>addr = 2, elems = [''b'']\<rparr>]"
        "\<lparr>addr = 4, elems = [''a'']\<rparr>"]
  by (simp add: createFindKeyIndex_def areKeysEqual_def findKeyIndex_loop.simps)

theorem findKeyIndex_custom_matcher_counterexample:
  "(\<lambda>stored cand. True) \<lparr>addr = 1, elems = [''a'', ''b'']\<rparr> \<lparr>addr = 2, elems = [''a'']\<rparr>
   \<and> createFindKeyIndex (=) (Some (\<lambda>stored cand. True))
        [\<lparr>addr = 1, elems = [''a'', ''b'']\<rparr>] \<lparr>addr = 2, elems = [''a'']\<rparr> = - 1"
  by (simp add: createFindKeyIndex_def areKeysEqual_def findKeyIndex_loop.simps)
section \<open>Properties of the instance methods\<close>

lemma truthy_NOT: "truthy (NOT x) = (x \<noteq> - 1)"
proof -
  have "(- x - 1 = 0) = (x = - 1)" by arith
  then show ?thesis by (simp add: truthy_def not_int_def)
qed

lemma findKeyIndex_miss_iff:
  "(findKeyIndex opts ks k = - 1) = (\<not> stored_match opts ks k)"
proof -
  have "(\<forall>j. 0 \<le> j \<and> j < length ks \<longrightarrow>
            \<not> key_hit (areKeysEqual (isEqual opts) (isMatchingKey opts)) (ks ! j) k) =
        (\<forall>stored \<in> set ks.
            \<not> key_hit (areKeysEqual (isEqual opts) (isMatchingKey opts)) stored k)"
    by (auto simp: all_set_conv_all_nth)
  then show ?thesis
    by (simp add: findKeyIndex_def createFindKeyIndex_def findKeyIndex_loop_miss
        stored_match_def)
qed

text \<open>The inserting branch of \<^verbatim>\<open>add\<close>, by the outcome of the two callbacks.\<close>

lemma add_new:
  assumes new: "\<not> stored_match (options (moized s)) (keys (cache (moized s)))
              (savedKey (options (moized s)) k)"
    and c2: "c2 = inserted (options (moized s)) (savedKey (options (moized s)) k) v
                   (cache (moized s))"
    and m2: "m2 = (moized s)\<lparr>cache := c2\<rparr>"
    and o1: "o1 = prim (onCacheAdd (options (moized s))) (c2, options (moized s), m2) (world s)"
    and o2: "o2 = prim (onCacheChange (options (moized s))) (c2, options (moized s), m2) (snd o1)"
  shows "add prim k v s =
     (case fst o1 of
        Inl e \<Rightarrow>
          (Inl e, s\<lparr>moized := m2, calls := calls s @ [OnCacheAdd c2 (options (moized s)) m2],
                    world := snd o1\<rparr>)
      | Inr u \<Rightarrow>
          ((case fst o2 of Inl e \<Rightarrow> Inl e | Inr u' \<Rightarrow> Inr Undefined),
           s\<lparr>moized := m2,
             calls := calls s @ [OnCacheAdd c2 (options (moized s)) m2,
                                 OnCacheChange c2 (options (moized s)) m2],
             world := snd o2\<rparr>))"
proof -
  from new have "findKeyIndex (options (moized s)) (keys (cache (moized s)))
      (savedKey (options (moized s)) k) = - 1"
    by (simp add: findKeyIndex_miss_iff)
  then show ?thesis
    unfolding c2 m2 o1 o2
    by (simp add: add_def call_callback_def truthy_NOT Let_def inserted_def evicted_def
        split: sum.splits)
qed

lemma add_existing:
  assumes "stored_match (options (moized s)) (keys (cache (moized s)))
              (savedKey (options (moized s)) k)"
  shows "add prim k v s = (Inr Undefined, s)"
proof -
  from assms have "findKeyIndex (options (moized s)) (keys (cache (moized s)))
      (savedKey (options (moized s)) k) \<noteq> - 1"
    by (simp add: findKeyIndex_miss_iff)
  then show ?thesis
    by (simp add: add_def truthy_NOT Let_def)
qed

text \<open>What \<^verbatim>\<open>add\<close> does to the object does not depend on the callbacks.\<close>

lemma add_moized:
  "moized (snd (add prim k v s)) =
     (if stored_match (options (moized s)) (keys (cache (moized s)))
           (savedKey (options (moized s)) k)
      then moized s
      else (moized s)\<lparr>cache :=
             inserted (options (moized s)) (savedKey (options (moized s)) k) v
               (cache (moized s))\<rparr>)"
proof (cases "stored_match (options (moized s)) (keys (cache (moized s)))
              (savedKey (options (moized s)) k)")
  case True
  then show ?thesis by (simp add: add_existing)
next
  case False
  from add_new [OF False refl refl refl refl, of prim v] False show ?thesis
    by (simp split: sum.splits)
qed

lemma add_options: "options (moized (snd (add prim k v s))) = options (moized s)"
  by (simp add: add_moized)

lemma add_expirations: "expirations (moized (snd (add prim k v s))) = expirations (moized s)"
  by (simp add: add_moized)

lemma adds_options: "options (moized (adds prim kvs s)) = options (moized s)"
  by (induction kvs arbitrary: s) (simp_all add: add_options)

lemma evicted_unbounded:
  "maxSize opts = None \<or> maxSize opts = Some Infinity \<Longrightarrow> evicted opts c = c"
  by (auto simp: evicted_def size_ge_def)

lemma stored_match_Cons:
  "stored_match opts (x # ks) k =
     (key_hit (areKeysEqual (isEqual opts) (isMatchingKey opts)) x k \<or> stored_match opts ks k)"
  by (simp add: stored_match_def)

lemma add_size_bounded:
  assumes m: "maxSize (options (moized s)) = Some (Num N)" and n: "1 \<le> N"
    and le: "int (cache_size (cache (moized s))) \<le> N"
  shows "int (cache_size (cache (moized (snd (add prim k v s))))) \<le> N"
proof (cases "stored_match (options (moized s)) (keys (cache (moized s)))
                (savedKey (options (moized s)) k)")
  case True
  then show ?thesis using le by (simp add: add_moized)
next
  case False
  show ?thesis
  proof (cases "N \<le> int (length (keys (cache (moized s))))")
    case full: True
    with n have "keys (cache (moized s)) \<noteq> []" by auto
    then have "Suc (length (keys (cache (moized s))) - 1) = length (keys (cache (moized s)))"
      by simp
    with False full m le show ?thesis
      by (simp add: add_moized inserted_def evicted_def size_ge_def cache_size_def)
  next
    case room: False
    with False m show ?thesis
      by (simp add: add_moized inserted_def evicted_def size_ge_def cache_size_def)
  qed
qed

lemma adds_size_bounded:
  assumes "maxSize (options (moized s)) = Some (Num N)" and "1 \<le> N"
    and "int (cache_size (cache (moized s))) \<le> N"
  shows "int (cache_size (cache (moized (adds prim kvs s)))) \<le> N"
  using assms
proof (induction kvs arbitrary: s)
  case Nil
  then show ?case by simp
next
  case (Cons kv kvs)
  have "maxSize (options (moized (snd (add prim (fst kv) (snd kv) s)))) = Some (Num N)"
    using Cons.prems(1) by (simp add: add_options)
  moreover have "int (cache_size (cache (moized (snd (add prim (fst kv) (snd kv) s))))) \<le> N"
    using Cons.prems by (rule add_size_bounded)
  ultimately show ?case using Cons.IH Cons.prems(2) by simp
qed

lemma add_shape:
  "(keys (cache (moized (snd (add prim k v s)))), vals (cache (moized (snd (add prim k v s)))))
     \<in> {(keys (cache (moized s)), vals (cache (moized s))),
         (savedKey (options (moized s)) k # keys (cache (moized s)), v # vals (cache (moized s))),
         (savedKey (options (moized s)) k # butlast (keys (cache (moized s))),
          v # butlast (vals (cache (moized s))))}"
  by (simp add: add_moized inserted_def evicted_def)

lemma adds_unbounded:
  assumes "maxSize (options (moized s)) = None \<or> maxSize (options (moized s)) = Some Infinity"
    and "\<forall>kv \<in> set kvs. \<not> stored_match (options (moized s)) (keys (cache (moized s)))
            (savedKey (options (moized s)) (fst kv))"
    and "pairwise_unmatched (options (moized s)) (map (\<lambda>kv. savedKey (options (moized s)) (fst kv)) kvs)"
  shows "keys (cache (moized (adds prim kvs s))) =
           rev (map (\<lambda>kv. savedKey (options (moized s)) (fst kv)) kvs) @ keys (cache (moized s))"
  using assms
proof (induction kvs arbitrary: s)
  case Nil
  then show ?case by simp
next
  case (Cons kv kvs)
  let ?opts = "options (moized s)"
  let ?s1 = "snd (add prim (fst kv) (snd kv) s)"
  have new: "\<not> stored_match ?opts (keys (cache (moized s))) (savedKey ?opts (fst kv))"
    using Cons.prems(2) by simp
  have opts1: "options (moized ?s1) = ?opts" by (simp add: add_options)
  have keys1: "keys (cache (moized ?s1)) = savedKey ?opts (fst kv) # keys (cache (moized s))"
    using new Cons.prems(1) by (simp add: add_moized inserted_def evicted_unbounded)
  have a1: "maxSize (options (moized ?s1)) = None \<or> maxSize (options (moized ?s1)) = Some Infinity"
    using Cons.prems(1) opts1 by simp
  have a2: "\<forall>kv' \<in> set kvs. \<not> stored_match (options (moized ?s1)) (keys (cache (moized ?s1)))
            (savedKey (options (moized ?s1)) (fst kv'))"
    using Cons.prems(2,3) by (simp add: opts1 keys1 stored_match_Cons)
  have a3: "pairwise_unmatched (options (moized ?s1))
              (map (\<lambda>kv. savedKey (options (moized ?s1)) (fst kv)) kvs)"
    using Cons.prems(3) by (simp add: opts1)
  have "keys (cache (moized (adds prim kvs ?s1))) =
          rev (map (\<lambda>kv. savedKey (options (moized ?s1)) (fst kv)) kvs) @ keys (cache (moized ?s1))"
    using a1 a2 a3 by (rule Cons.IH)
  then show ?case by (simp add: opts1 keys1)
qed

lemma remove_moized:
  "moized (snd (remove prim k s)) =
     (if findKeyIndex (options (moized s)) (keys (cache (moized s)))
           (savedKey (options (moized s)) k) \<noteq> - 1
      then (moized s)\<lparr>cache := (cache (moized s))
             \<lparr>keys := splice1 (nat (findKeyIndex (options (moized s)) (keys (cache (moized s)))
                         (savedKey (options (moized s)) k))) (keys (cache (moized s))),
              vals := splice1 (nat (findKeyIndex (options (moized s)) (keys (cache (moized s)))
                         (savedKey (options (moized s)) k))) (vals (cache (moized s)))\<rparr>\<rparr>
      else moized s)"
  by (simp add: remove_def call_callback_def truthy_NOT Let_def split: sum.splits)

lemmas match_defs =
  stored_match_def key_hit_def areKeysEqual_def areKeysEqual_loop.simps at_def savedKey_def

lemmas example_defs =
  strict_equal_def test_options_def key_a_def key_b_def key_c_def empty_state_def armed_state_def
  returning_def throwing_onCacheAdd_def

lemmas run_defs =
  add_def call_callback_def findKeyIndex_def createFindKeyIndex_def areKeysEqual_def savedKey_def
  size_ge_def cache_size_def truthy_def at_def Let_def key_hit_def
  findKeyIndex_loop.simps areKeysEqual_loop.simps
  findExpirationIndex_def findExpirationIndex_loop.simps strict_eq_def

section \<open>Claims about the instance methods\<close>

text \<open>
  Claim C1. The instance is to have an \<^verbatim>\<open>update(key, newValue)\<close> method. The object literal
  of \<^verbatim>\<open>addInstanceMethods\<close> has no such method: \<^verbatim>\<open>update\<close> is not among the installed names,
  and the call \<^verbatim>\<open>moized.update(key, newValue)\<close> of the tests raises a \<^verbatim>\<open>TypeError\<close>.
\<close>

theorem update_not_installed:
  "''update'' \<notin> set instanceMethods
   \<and> lookupMethod ''update'' = Inl (TypeError ''moized.update is not a function'')"
  by (simp add: lookupMethod_def instanceMethods_def inheritedMethods_def)

text \<open>
  Claim C2. \<^verbatim>\<open>remove(key)\<close> on a key with an armed expiration is to take the expiration
  record out of the expirations. On the input of the test, whatever the callbacks do,
  \<^verbatim>\<open>remove\<close> deletes the entry from the cache and leaves the expiration record of the key
  where it was, at index 0.
\<close>

theorem remove_keeps_expiration:
  "keys (cache (moized (snd (remove prim key_k expiring_state)))) = []
   \<and> vals (cache (moized (snd (remove prim key_k expiring_state)))) = []
   \<and> expirations (moized (snd (remove prim key_k expiring_state))) =
       [\<lparr>expirationMethod = (), key = key_k, timeoutId = 7\<rparr>]
   \<and> findExpirationIndex (expirations (moized (snd (remove prim key_k expiring_state)))) key_k = 0
   \<and> fst (remove returning key_k expiring_state) = Inr Undefined"
proof -
  have idx: "findKeyIndex (options (moized expiring_state)) (keys (cache (moized expiring_state)))
      (savedKey (options (moized expiring_state)) key_k) = 0"
    by (simp add: expiring_state_def key_k_def strict_equal_def findKeyIndex_def
        createFindKeyIndex_def areKeysEqual_def savedKey_def at_def
        findKeyIndex_loop.simps areKeysEqual_loop.simps)
  have obj: "moized (snd (remove prim key_k expiring_state)) =
      (moized expiring_state)\<lparr>cache := \<lparr>keys = [], vals = []\<rparr>\<rparr>"
    by (simp add: remove_moized idx) (simp add: expiring_state_def splice1_def)
  have exps: "expirations (moized expiring_state) =
      [\<lparr>expirationMethod = (), key = key_k, timeoutId = 7\<rparr>]"
    by (simp add: expiring_state_def)
  have found: "findExpirationIndex [\<lparr>expirationMethod = (), key = key_k, timeoutId = 7\<rparr>] key_k = 0"
    by (simp add: findExpirationIndex_def findExpirationIndex_loop.simps strict_eq_def)
  have ret: "fst (remove returning key_k expiring_state) = Inr Undefined"
    using idx by (simp add: remove_def call_callback_def truthy_NOT Let_def returning_def)
  from obj exps found ret show ?thesis by simp
qed




text \<open>
  Claim C4, as the code has it. With \<^verbatim>\<open>maxSize\<close> unset (or \<^verbatim>\<open>Infinity\<close>) the cache is
  unbounded: starting from the empty cache, a sequence of adds whose saved keys pairwise do
  not match evicts nothing; every key is in the cache, newest first, and the size is the
  number of adds.
\<close>

theorem adds_unbounded_when_unset:
  assumes "maxSize (options (moized s)) = None \<or> maxSize (options (moized s)) = Some Infinity"
    and "keys (cache (moized s)) = []"
    and "pairwise_unmatched (options (moized s))
           (map (\<lambda>kv. savedKey (options (moized s)) (fst kv)) kvs)"
  shows "cache_size (cache (moized (adds prim kvs s))) = length kvs
         \<and> keys (cache (moized (adds prim kvs s))) =
             rev (map (\<lambda>kv. savedKey (options (moized s)) (fst kv)) kvs)"
proof -
  have "\<forall>kv \<in> set kvs. \<not> stored_match (options (moized s)) (keys (cache (moized s)))
            (savedKey (options (moized s)) (fst kv))"
    using assms(2) by (simp add: stored_match_def)
  then have "keys (cache (moized (adds prim kvs s))) =
      rev (map (\<lambda>kv. savedKey (options (moized s)) (fst kv)) kvs) @ keys (cache (moized s))"
    using adds_unbounded [OF assms(1) _ assms(3)] by blast
  with assms(2) show ?thesis by (simp add: cache_size_def)
qed

theorem adds_unbounded_when_unset_witness:
  "cache_size (cache (moized
      (adds returning [(key_a, ''1''), (key_b, ''2''), (key_c, ''3'')] (empty_state None)))) = 3
   \<and> keys (cache (moized
      (adds returning [(key_a, ''1''), (key_b, ''2''), (key_c, ''3'')] (empty_state None))))
       = [key_c, key_b, key_a]"
  using adds_unbounded_when_unset
    [of "empty_state None" "[(key_a, ''1''), (key_b, ''2''), (key_c, ''3'')]" returning]
  by (simp add: example_defs run_defs)

text \<open>
  With \<^verbatim>\<open>maxSize = 0\<close> the test \<^verbatim>\<open>size >= maxSize\<close> holds at every add: two adds of keys that
  do not match leave one entry, the first one having been evicted.
\<close>

theorem adds_unbounded_when_unset_counterexample:
  "pairwise_unmatched (test_options (Some (Num 0))) [key_a, key_b]
   \<and> cache_size (cache (moized
        (adds returning [(key_a, ''1''), (key_b, ''2'')] (empty_state (Some (Num 0)))))) = 1
   \<and> keys (cache (moized
        (adds returning [(key_a, ''1''), (key_b, ''2'')] (empty_state (Some (Num 0)))))) = [key_b]"
  by (simp add: example_defs run_defs)

text \<open>
  Claim C6. With \<^verbatim>\<open>maxSize = N\<close>, \<open>N \<ge> 1\<close>, a cache of at most \<open>N\<close> entries has at most \<open>N\<close>
  entries after any sequence of adds. An add leaves the sequences as they are, or puts the
  new entry in front of them, or puts it in front of them with their last element dropped:
  what is evicted is the entry at the back. With \<^verbatim>\<open>maxSize = 2\<close>, adding \<^verbatim>\<open>['a']\<close>, \<^verbatim>\<open>['b']\<close>,
  \<^verbatim>\<open>['c']\<close> to the empty cache leaves the keys \<^verbatim>\<open>[['c'], ['b']]\<close>.
\<close>

theorem adds_bounded_by_maxSize:
  "(maxSize (options (moized s)) = Some (Num N) \<and> 1 \<le> N
      \<and> int (cache_size (cache (moized s))) \<le> N \<longrightarrow>
        int (cache_size (cache (moized (adds prim kvs s)))) \<le> N)
   \<and> (keys (cache (moized (snd (add prim k v s)))), vals (cache (moized (snd (add prim k v s)))))
        \<in> {(keys (cache (moized s)), vals (cache (moized s))),
            (savedKey (options (moized s)) k # keys (cache (moized s)),
             v # vals (cache (moized s))),
            (savedKey (options (moized s)) k # butlast (keys (cache (moized s))),
             v # butlast (vals (cache (moized s))))}
   \<and> keys (cache (moized (adds returning [(key_a, ''1''), (key_b, ''2''), (key_c, ''3'')]
        (empty_state (Some (Num 2)))))) = [key_c, key_b]"
proof (intro conjI impI)
  show "int (cache_size (cache (moized (adds prim kvs s)))) \<le> N"
    if "maxSize (options (moized s)) = Some (Num N) \<and> 1 \<le> N
          \<and> int (cache_size (cache (moized s))) \<le> N"
    using that by (simp add: adds_size_bounded)
  show "(keys (cache (moized (snd (add prim k v s)))), vals (cache (moized (snd (add prim k v s)))))
        \<in> {(keys (cache (moized s)), vals (cache (moized s))),
            (savedKey (options (moized s)) k # keys (cache (moized s)),
             v # vals (cache (moized s))),
            (savedKey (options (moized s)) k # butlast (keys (cache (moized s))),
             v # butlast (vals (cache (moized s))))}"
    by (rule add_shape)
  show "keys (cache (moized (adds returning [(key_a, ''1''), (key_b, ''2''), (key_c, ''3'')]
        (empty_state (Some (Num 2)))))) = [key_c, key_b]"
    by (simp add: example_defs run_defs)
qed

theorem adds_bounded_by_maxSize_witness:
  "int (cache_size (cache (moized
      (adds returning [(key_a, ''1''), (key_b, ''2''), (key_c, ''3'')]
        (empty_state (Some (Num 2))))))) \<le> 2"
  using adds_bounded_by_maxSize
    [of "empty_state (Some (Num 2))" 2 returning
        "[(key_a, ''1''), (key_b, ''2''), (key_c, ''3'')]"]
  by (simp add: example_defs cache_size_def)

text \<open>
  Claim C7, as the code has it. An add of a key that no stored key matches calls
  \<^verbatim>\<open>onCacheAdd\<close> once, with the resulting cache, the options and the object itself. When that
  call returns, the add calls \<^verbatim>\<open>onCacheChange\<close> once, after it and with the same arguments.
  When \<^verbatim>\<open>onCacheAdd\<close> throws, the exception leaves the add: the key stays inserted and
  \<^verbatim>\<open>onCacheChange\<close> is not called. An add of a key that a stored key matches makes no call and
  leaves the state as it was.
\<close>

theorem add_callbacks:
  assumes "opts = options (moized s)" and "sk = savedKey opts k"
    and "s' = snd (add prim k v s)"
    and "o1 = prim (onCacheAdd opts) (cache (moized s'), options (moized s'), moized s') (world s)"
    and "o2 = prim (onCacheChange opts) (cache (moized s'), options (moized s'), moized s') (snd o1)"
  shows "(\<not> stored_match opts (keys (cache (moized s))) sk \<longrightarrow>
            options (moized s') = opts
            \<and> keys (cache (moized s')) = sk # keys (evicted opts (cache (moized s)))
            \<and> (\<forall>u. fst o1 = Inr u \<longrightarrow>
                  calls s' = calls s @
                    [OnCacheAdd (cache (moized s')) (options (moized s')) (moized s'),
                     OnCacheChange (cache (moized s')) (options (moized s')) (moized s')]
                  \<and> world s' = snd o2
                  \<and> fst (add prim k v s) =
                      (case fst o2 of Inl e \<Rightarrow> Inl e | Inr u' \<Rightarrow> Inr Undefined))
            \<and> (\<forall>e. fst o1 = Inl e \<longrightarrow>
                  calls s' = calls s @
                    [OnCacheAdd (cache (moized s')) (options (moized s')) (moized s')]
                  \<and> world s' = snd o1
                  \<and> fst (add prim k v s) = Inl e))
         \<and> (stored_match opts (keys (cache (moized s))) sk \<longrightarrow>
              s' = s \<and> fst (add prim k v s) = Inr Undefined)"
proof (intro conjI impI allI)
  assume "stored_match opts (keys (cache (moized s))) sk"
  with assms(1-3) show "s' = s" "fst (add prim k v s) = Inr Undefined"
    by (simp_all add: add_existing)
next
  assume "\<not> stored_match opts (keys (cache (moized s))) sk"
  then have new: "\<not> stored_match (options (moized s)) (keys (cache (moized s)))
              (savedKey (options (moized s)) k)"
    using assms(1,2) by simp
  have m': "moized s' = (moized s)\<lparr>cache := inserted opts sk v (cache (moized s))\<rparr>"
    using new assms(1-3) by (simp add: add_moized)
  from assms(1,3) show "options (moized s') = opts" by (simp add: add_options)
  from m' show "keys (cache (moized s')) = sk # keys (evicted opts (cache (moized s)))"
    by (simp add: inserted_def)
  note run = add_new [OF new refl refl refl refl, of prim v]
  {
    fix u assume "fst o1 = Inr u"
    with run m' assms show "calls s' = calls s @
        [OnCacheAdd (cache (moized s')) (options (moized s')) (moized s'),
         OnCacheChange (cache (moized s')) (options (moized s')) (moized s')]"
      "world s' = snd o2"
      "fst (add prim k v s) = (case fst o2 of Inl e \<Rightarrow> Inl e | Inr u' \<Rightarrow> Inr Undefined)"
      by simp_all
  next
    fix e assume "fst o1 = Inl e"
    with run m' assms show "calls s' = calls s @
        [OnCacheAdd (cache (moized s')) (options (moized s')) (moized s')]"
      "world s' = snd o1"
      "fst (add prim k v s) = Inl e"
      by simp_all
  }
qed

theorem add_callbacks_witness:
  "calls (snd (add returning key_c ''3'' (armed_state None))) =
     [OnCacheAdd (cache (moized (snd (add returning key_c ''3'' (armed_state None)))))
        (test_options None) (moized (snd (add returning key_c ''3'' (armed_state None)))),
      OnCacheChange (cache (moized (snd (add returning key_c ''3'' (armed_state None)))))
        (test_options None) (moized (snd (add returning key_c ''3'' (armed_state None))))]
   \<and> keys (cache (moized (snd (add returning key_c ''3'' (armed_state None))))) =
       [key_c, key_b, key_a]
   \<and> fst (add returning key_c ''3'' (armed_state None)) = Inr Undefined
   \<and> calls (snd (add throwing_onCacheAdd key_c ''3'' (armed_state None))) =
     [OnCacheAdd (cache (moized (snd (add throwing_onCacheAdd key_c ''3'' (armed_state None)))))
        (test_options None)
        (moized (snd (add throwing_onCacheAdd key_c ''3'' (armed_state None))))]
   \<and> keys (cache (moized (snd (add throwing_onCacheAdd key_c ''3'' (armed_state None))))) =
       [key_c, key_b, key_a]
   \<and> fst (add throwing_onCacheAdd key_c ''3'' (armed_state None)) = Inl ''thrown by onCacheAdd''
   \<and> snd (add returning key_a ''3'' (armed_state None)) = armed_state None"
proof -
  let ?s = "armed_state None"
  have new: "\<not> stored_match (options (moized ?s)) (keys (cache (moized ?s)))
                 (savedKey (options (moized ?s)) key_c)"
    by (simp add: example_defs match_defs)
  have old: "stored_match (options (moized ?s)) (keys (cache (moized ?s)))
                 (savedKey (options (moized ?s)) key_a)"
    by (simp add: example_defs match_defs)
  have start: "calls ?s = []" "options (moized ?s) = test_options None"
    "onCacheAdd (options (moized ?s)) = ''onCacheAdd''"
    "savedKey (options (moized ?s)) key_c
       # keys (evicted (options (moized ?s)) (cache (moized ?s))) = [key_c, key_b, key_a]"
    by (simp_all add: example_defs savedKey_def evicted_def size_ge_def)
  note returns = add_callbacks
    [OF refl refl refl refl refl, where s = ?s and k = key_c and prim = returning
      and v = "''3''"]
  note throws = add_callbacks
    [OF refl refl refl refl refl, where s = ?s and k = key_c and prim = throwing_onCacheAdd
      and v = "''3''"]
  note matches = add_callbacks
    [OF refl refl refl refl refl, where s = ?s and k = key_a and prim = returning
      and v = "''3''"]
  from returns new start
  have r: "calls (snd (add returning key_c ''3'' ?s)) =
     [OnCacheAdd (cache (moized (snd (add returning key_c ''3'' ?s))))
        (test_options None) (moized (snd (add returning key_c ''3'' ?s))),
      OnCacheChange (cache (moized (snd (add returning key_c ''3'' ?s))))
        (test_options None) (moized (snd (add returning key_c ''3'' ?s)))]
      \<and> keys (cache (moized (snd (add returning key_c ''3'' ?s)))) = [key_c, key_b, key_a]
      \<and> fst (add returning key_c ''3'' ?s) = Inr Undefined"
    by (simp add: returning_def)
  from throws new start
  have t: "calls (snd (add throwing_onCacheAdd key_c ''3'' ?s)) =
     [OnCacheAdd (cache (moized (snd (add throwing_onCacheAdd key_c ''3'' ?s))))
        (test_options None) (moized (snd (add throwing_onCacheAdd key_c ''3'' ?s)))]
      \<and> keys (cache (moized (snd (add throwing_onCacheAdd key_c ''3'' ?s)))) =
          [key_c, key_b, key_a]
      \<and> fst (add throwing_onCacheAdd key_c ''3'' ?s) = Inl ''thrown by onCacheAdd''"
    by (simp add: throwing_onCacheAdd_def)
  from matches old
  have m: "snd (add returning key_a ''3'' ?s) = ?s"
    by simp
  from r t m show ?thesis by simp
qed

text \<open>
  The claim as the spec words it fails when \<^verbatim>\<open>onCacheAdd\<close> throws: the add of a new key
  inserts the key and calls \<^verbatim>\<open>onCacheAdd\<close>, and \<^verbatim>\<open>onCacheChange\<close> is not called at all.
\<close>

theorem add_callbacks_counterexample:
  "\<not> stored_match (test_options None) [key_b, key_a] key_c
   \<and> keys (cache (moized (snd (add throwing_onCacheAdd key_c ''3'' (armed_state None))))) =
       [key_c, key_b, key_a]
   \<and> calls (snd (add throwing_onCacheAdd key_c ''3'' (armed_state None))) =
       [OnCacheAdd \<lparr>keys = [key_c, key_b, key_a], vals = [''3'', ''2'', ''1'']\<rparr> (test_options None)
          (moized (snd (add throwing_onCacheAdd key_c ''3'' (armed_state None))))]
   \<and> fst (add throwing_onCacheAdd key_c ''3'' (armed_state None)) = Inl ''thrown by onCacheAdd''"
  by (simp add: example_defs run_defs stored_match_def)

section \<open>Properties of combine, compose and mergeOptions\<close>






















section \<open>Claims about mergeOptions\<close>






end
